theory Spec2Isabelle
  imports Complex_Main
begin

section \<open>Conventions of the embedding\<close>

text \<open>
  The periodicity engine computes on NumPy \<open>float64\<close> arrays. The embedding idealises
  a finite float as a real number, so rounding, overflow and underflow of the machine
  arithmetic are outside the model. What NumPy does when there is no real result is kept:
  the mean of an empty array and a percentile of an empty sample are NaN, written
  \<open>None\<close> in the type \<open>npfloat\<close>; a Python exception is a value \<open>Inl e\<close>.
  Python integers that count something (lengths, bin counts, loop indices) are naturals,
  other integers are \<open>int\<close>.
\<close>

datatype py_error = ZeroDivisionError | IndexError | ValueError | OverflowError

type_synonym npfloat = "real option"

text \<open>\<open>np.mean\<close>: NaN on an empty array.\<close>

definition np_mean :: "real list \<Rightarrow> npfloat" where
  "np_mean xs = (if xs = [] then None else Some (sum_list xs / real (length xs)))"

text \<open>Python's and NumPy's float \<open>%\<close> for a non-zero divisor: the result has the
  sign of the divisor.\<close>

definition fmod :: "real \<Rightarrow> real \<Rightarrow> real" where
  "fmod x m = x - m * of_int \<lfloor>x / m\<rfloor>"

text \<open>\<open>np.arctan2 y x\<close> on reals: the angle of the point \<open>(x, y)\<close> in
  \<open>(-\<pi>, \<pi>]\<close>, and 0 at the origin.\<close>

definition arctan2 :: "real \<Rightarrow> real \<Rightarrow> real" where
  "arctan2 y x =
     (if 0 < x then arctan (y / x)
      else if x < 0 then (if 0 \<le> y then arctan (y / x) + pi else arctan (y / x) - pi)
      else if 0 < y then pi / 2
      else if y < 0 then - (pi / 2)
      else 0)"

text \<open>Python's \<open>str\<close> of a non-negative integer.\<close>

definition digit_str :: "nat \<Rightarrow> string" where
  "digit_str d =
     (if d = 0 then ''0'' else if d = 1 then ''1'' else if d = 2 then ''2''
      else if d = 3 then ''3'' else if d = 4 then ''4'' else if d = 5 then ''5''
      else if d = 6 then ''6'' else if d = 7 then ''7'' else if d = 8 then ''8''
      else ''9'')"

fun str_nat :: "nat \<Rightarrow> string" where
  "str_nat n = (if n < 10 then digit_str n else str_nat (n div 10) @ digit_str (n mod 10))"

declare str_nat.simps [simp del]

section \<open>Schuster spectrum module (case-a1-schuster.py)\<close>


definition compute_d2 :: "real \<Rightarrow> real \<Rightarrow> nat \<Rightarrow> real" where
  "compute_d2 cos_sum sin_sum n =
     (if n = 0 then 0 else (cos_sum ^ 2 + sin_sum ^ 2) / real n)"

definition standard_p_from_d2 :: "real \<Rightarrow> real" where
  "standard_p_from_d2 d2 = exp (- d2)"

text \<open>The sweep of \<open>assign_clusters\<close>: \<open>prev\<close> is \<open>event_time_days[i - 1]\<close>,
  the list holds the times from index \<open>i\<close> on, and the result is \<open>cluster_ids[i:]\<close>.\<close>

fun assign_sweep :: "real \<Rightarrow> nat \<Rightarrow> real \<Rightarrow> real list \<Rightarrow> nat list" where
  "assign_sweep dt current_id prev [] = []"
| "assign_sweep dt current_id prev (t # ts) =
     (let iet = t - prev;
          current_id' = (if iet \<ge> dt then current_id + 1 else current_id)
      in current_id' # assign_sweep dt current_id' t ts)"

definition assign_clusters :: "real list \<Rightarrow> real \<Rightarrow> nat list" where
  "assign_clusters event_time_days dt_cluster =
     (case event_time_days of
        [] \<Rightarrow> []
      | t0 # rest \<Rightarrow> 0 # assign_sweep dt_cluster 0 t0 rest)"

text \<open>\<open>compute_phases\<close> for a non-zero period (a zero period makes every phase NaN,
  which \<open>schuster_single_period\<close> below handles).\<close>

definition compute_phases :: "real list \<Rightarrow> real \<Rightarrow> real list" where
  "compute_phases event_time_days period_days =
     map (\<lambda>t. 2 * pi * (fmod t period_days / period_days)) event_time_days"

record schuster_result =
  n_events :: nat
  n_clusters :: nat
  D2 :: npfloat
  p_standard :: npfloat
  p_cluster_robust :: npfloat

text \<open>\<open>phases[cluster_ids == cid]\<close>.\<close>

definition cluster_members :: "nat list \<Rightarrow> real list \<Rightarrow> nat \<Rightarrow> real list" where
  "cluster_members cluster_ids phases cid =
     map snd (filter (\<lambda>(c, p). c = cid) (zip cluster_ids phases))"

text \<open>One pass of the loop over \<open>cid\<close>: the unit vector at the mean direction of the
  cluster, NaN if the cluster has no member.\<close>

definition cluster_unit :: "real list \<Rightarrow> (real \<times> real) option" where
  "cluster_unit cluster_phases =
     (case (np_mean (map cos cluster_phases), np_mean (map sin cluster_phases)) of
        (Some mc, Some ms) \<Rightarrow> (let angle = arctan2 ms mc in Some (cos angle, sin angle))
      | _ \<Rightarrow> None)"

text \<open>The sum of an array that may hold NaN is NaN as soon as one entry is.\<close>

fun nan_sum :: "npfloat list \<Rightarrow> npfloat" where
  "nan_sum [] = Some 0"
| "nan_sum (x # xs) =
     (case (x, nan_sum xs) of (Some a, Some b) \<Rightarrow> Some (a + b) | _ \<Rightarrow> None)"

definition schuster_single_period :: "real list \<Rightarrow> real \<Rightarrow> real \<Rightarrow> schuster_result" where
  "schuster_single_period event_time_days period_days dt_cluster =
     (let n_ev = length event_time_days in
      if n_ev = 0 then
        \<lparr>n_events = 0, n_clusters = 0, D2 = Some 0, p_standard = Some 1,
         p_cluster_robust = Some 1\<rparr>
      else
        let cluster_ids = assign_clusters event_time_days dt_cluster;
            n_cl = last cluster_ids + 1
        in if period_days = 0 then
             \<lparr>n_events = n_ev, n_clusters = n_cl, D2 = None, p_standard = None,
              p_cluster_robust = None\<rparr>
           else
             let phases = compute_phases event_time_days period_days;
                 cos_sum = sum_list (map cos phases);
                 sin_sum = sum_list (map sin phases);
                 d2_standard = compute_d2 cos_sum sin_sum n_ev;
                 p_std = standard_p_from_d2 d2_standard;
                 units = map (\<lambda>cid. cluster_unit (cluster_members cluster_ids phases cid))
                             [0..<n_cl];
                 cos_sum_c = nan_sum (map (map_option fst) units);
                 sin_sum_c = nan_sum (map (map_option snd) units);
                 p_cr = (case (cos_sum_c, sin_sum_c) of
                           (Some c, Some s) \<Rightarrow> Some (standard_p_from_d2 (compute_d2 c s n_cl))
                         | _ \<Rightarrow> None)
             in \<lparr>n_events = n_ev, n_clusters = n_cl, D2 = Some d2_standard,
                 p_standard = Some p_std, p_cluster_robust = p_cr\<rparr>)"

section \<open>MFPA module (case-a1-mfpa.py)\<close>

text \<open>\<open>f = np.sum(np.exp(1j * phases))\<close> is a complex number; \<open>cis \<phi>\<close> is
  \<open>exp(i\<phi>)\<close>.\<close>

definition mfpa_power :: "real list \<Rightarrow> real" where
  "mfpa_power phases =
     (let n = length phases in
      if n = 0 then 0
      else let f = sum_list (map cis phases)
           in ((Re f) ^ 2 + (Im f) ^ 2) / real n)"

definition MFPA_N_PERIODS :: nat where "MFPA_N_PERIODS = 300"
definition MFPA_MIN_DAYS :: real where "MFPA_MIN_DAYS = 25 / 100"
definition MFPA_MAX_DAYS :: real where "MFPA_MAX_DAYS = 548"
definition N_BOOTSTRAP :: nat where "N_BOOTSTRAP = 1000"
definition RNG_SEED :: int where "RNG_SEED = 42"

definition A1B_INTERVALS :: "(real \<times> real) list" where
  "A1B_INTERVALS = [(1875 / 10000, 25 / 100), (625 / 1000, 656 / 1000), (875 / 1000, 917 / 1000)]"

text \<open>NumPy's random generator is not code of the repository. It is a parameter of the
  model: \<open>default_rng seed\<close> is the state of a new generator made from a seed, and
  \<open>uniform g lo hi size\<close> draws \<open>size\<close> numbers and returns them with the next state
  of that generator.\<close>

record 'g np_random =
  default_rng :: "int \<Rightarrow> 'g"
  uniform :: "'g \<Rightarrow> real \<Rightarrow> real \<Rightarrow> nat \<Rightarrow> real list \<times> 'g"

text \<open>\<open>np.percentile\<close> with its default linear interpolation; NaN on an empty
  sample.\<close>

definition np_percentile :: "real list \<Rightarrow> real \<Rightarrow> npfloat" where
  "np_percentile xs q =
     (if xs = [] then None
      else let srt = sort xs;
               pos = q / 100 * real (length xs - 1);
               lo = nat \<lfloor>pos\<rfloor>;
               hi = min (lo + 1) (length xs - 1);
               gamma = pos - real lo
           in Some (srt ! lo + (srt ! hi - srt ! lo) * gamma))"

text \<open>The bootstrap loop \<open>for k in range(n_bootstrap)\<close>, which both
  \<open>bootstrap_null_percentiles\<close> and \<open>mfpa_scan\<close> run on a generator of their own:
  the powers of the replicates, in the order drawn.\<close>

fun null_loop :: "'g np_random \<Rightarrow> nat \<Rightarrow> nat \<Rightarrow> 'g \<Rightarrow> real list" where
  "null_loop G n 0 rng = []"
| "null_loop G n (Suc m) rng =
     (let (random_phases, rng') = uniform G rng 0 (2 * pi) n
      in mfpa_power random_phases # null_loop G n m rng')"


text \<open>Python's \<open>int\<close> of a float truncates towards zero.\<close>

definition py_int :: "real \<Rightarrow> int" where
  "py_int x = (if 0 \<le> x then \<lfloor>x\<rfloor> else \<lceil>x\<rceil>)"

definition year_days :: real where
  "year_days = 36525 / 100"

text \<open>The list \<open>predicted_phases\<close> of \<open>a1b_consistency_label\<close>, for a non-zero
  period.\<close>

definition predicted_phases :: "real \<Rightarrow> real list" where
  "predicted_phases period_days =
     (let n_harmonics = max 1 (py_int (year_days / period_days))
      in map (\<lambda>k. fmod (real k * period_days / year_days) 1) [0..<nat (n_harmonics + 1)])"

text \<open>The inner loop \<open>for idx, (lo, hi) in enumerate(intervals)\<close>; \<open>hits\<close> has three
  entries, and setting a fourth raises.\<close>

fun mark_interval_hits ::
  "real \<Rightarrow> (real \<times> real) list \<Rightarrow> nat \<Rightarrow> bool list \<Rightarrow> py_error + bool list" where
  "mark_interval_hits phase_frac [] idx hits = Inr hits"
| "mark_interval_hits phase_frac ((lo, hi) # rest) idx hits =
     (if lo \<le> phase_frac \<and> phase_frac \<le> hi then
        (if idx < length hits
         then mark_interval_hits phase_frac rest (idx + 1) (hits[idx := True])
         else Inl IndexError)
      else mark_interval_hits phase_frac rest (idx + 1) hits)"

fun mark_hits :: "real list \<Rightarrow> (real \<times> real) list \<Rightarrow> bool list \<Rightarrow> py_error + bool list" where
  "mark_hits [] intervals hits = Inr hits"
| "mark_hits (phase_frac # rest) intervals hits =
     (case mark_interval_hits phase_frac intervals 0 hits of
        Inl e \<Rightarrow> Inl e
      | Inr hits' \<Rightarrow> mark_hits rest intervals hits')"

text \<open>\<open>"+".join\<close>.\<close>

fun plus_join :: "string list \<Rightarrow> string" where
  "plus_join [] = []"
| "plus_join [x] = x"
| "plus_join (x # y # ys) = x @ ''+'' @ plus_join (y # ys)"

text \<open>The chain of tests on \<open>hit_count\<close> and \<open>hit_indices\<close> that chooses the
  label.\<close>

definition consistency_label :: "bool list \<Rightarrow> string" where
  "consistency_label hits =
     (let hit_count = length (filter (\<lambda>h. h) hits);
          hit_indices = map (\<lambda>i. i + 1) (filter (\<lambda>i. hits ! i) [0..<length hits])
      in if hit_count = 0 then ''inconsistent with all A1b intervals''
         else if hit_count = 1 \<and> hit_indices = [1] then ''consistent with interval 1 only''
         else if hit_count = 2 \<and> hit_indices = [1, 2] then ''consistent with intervals 1+2''
         else if hit_count = 2 \<and> hit_indices = [1, 3]
           then ''consistent with intervals 1+3 (6-month)''
         else if hit_count = 2 \<and> hit_indices = [2, 3] then ''consistent with intervals 2+3''
         else if hit_count = 3
           then ''consistent with all three intervals (4-month if applicable)''
         else ''consistent with intervals '' @ plus_join (map str_nat hit_indices))"

text \<open>A zero period raises: \<open>ZeroDivisionError\<close> for a Python float (for a NumPy
  scalar the quotient is infinite and \<open>int\<close> raises \<open>OverflowError\<close> instead).\<close>

definition a1b_consistency_label ::
  "real \<Rightarrow> (real \<times> real) list option \<Rightarrow> py_error + string" where
  "a1b_consistency_label period_days intervals_arg =
     (let intervals = (case intervals_arg of None \<Rightarrow> A1B_INTERVALS | Some ivs \<Rightarrow> ivs) in
      if period_days = 0 then Inl ZeroDivisionError
      else case mark_hits (predicted_phases period_days) intervals [False, False, False] of
             Inl e \<Rightarrow> Inl e
           | Inr hits \<Rightarrow> Inr (consistency_label hits))"

text \<open>\<open>np.linspace\<close> with both ends, and \<open>np.logspace\<close> on top of it.\<close>

definition np_linspace :: "real \<Rightarrow> real \<Rightarrow> nat \<Rightarrow> real list" where
  "np_linspace start stop num =
     (if num = 0 then []
      else if num = 1 then [start]
      else let step = (stop - start) / real (num - 1)
           in map (\<lambda>i. if i = num - 1 then stop else real i * step + start) [0..<num])"

definition np_logspace :: "real \<Rightarrow> real \<Rightarrow> nat \<Rightarrow> real list" where
  "np_logspace start stop num = map (\<lambda>y. 10 powr y) (np_linspace start stop num)"

record period_summary =
  period_days :: real
  entry_power :: real
  p_mfpa :: npfloat
  a1b_consistency :: string

record spectrum_entry = period_summary +
  p95_threshold :: npfloat
  p99_threshold :: npfloat

record scan_result =
  spectrum :: "spectrum_entry list"
  significant_periods :: "period_summary list"

text \<open>\<open>np.mean(column >= power)\<close>: the fraction of the bootstrap powers that reach the
  observed power, NaN when there is no replicate.\<close>

definition fraction_at_least :: "real list \<Rightarrow> real \<Rightarrow> npfloat" where
  "fraction_at_least column pw =
     np_mean (map (\<lambda>x. if x \<ge> pw then 1 else 0) column)"

text \<open>The loop \<open>for j, T in enumerate(periods)\<close>. It returns the two lists that the
  source appends to; an exception of \<open>a1b_consistency_label\<close> ends it.\<close>

fun scan_periods ::
  "real list \<Rightarrow> real list list \<Rightarrow> (nat \<times> real) list
   \<Rightarrow> py_error + spectrum_entry list \<times> period_summary list" where
  "scan_periods event_time_days null_powers_matrix [] = Inr ([], [])"
| "scan_periods event_time_days null_powers_matrix ((j, T) # rest) =
     (let phases = map (\<lambda>t. 2 * pi * (fmod t T / T)) event_time_days;
          pw = mfpa_power phases;
          column = map (\<lambda>row. row ! j) null_powers_matrix;
          p95 = np_percentile column 95;
          p99 = np_percentile column 99;
          p = fraction_at_least column pw
      in case a1b_consistency_label T None of
           Inl e \<Rightarrow> Inl e
         | Inr a1b_label \<Rightarrow>
             (case scan_periods event_time_days null_powers_matrix rest of
                Inl e \<Rightarrow> Inl e
              | Inr (spec, sig) \<Rightarrow>
                  Inr (\<lparr>period_days = T, entry_power = pw, p_mfpa = p,
                        a1b_consistency = a1b_label, p95_threshold = p95,
                        p99_threshold = p99\<rparr> # spec,
                       if (case p95 of Some thr \<Rightarrow> pw > thr | None \<Rightarrow> False)
                       then \<lparr>period_days = T, entry_power = pw, p_mfpa = p,
                             a1b_consistency = a1b_label\<rparr> # sig
                       else sig)))"

text \<open>\<open>mfpa_scan\<close>. A period bound that is not positive has no real logarithm: the
  first point of the grid is then NaN, and \<open>int\<close> of NaN in
  \<open>a1b_consistency_label\<close> raises \<open>ValueError\<close> in the first pass of the loop.\<close>

definition mfpa_scan ::
  "'g np_random \<Rightarrow> real list \<Rightarrow> nat \<Rightarrow> real \<Rightarrow> real \<Rightarrow> nat \<Rightarrow> int
   \<Rightarrow> py_error + scan_result" where
  "mfpa_scan G event_time_days n_periods min_period_days max_period_days n_bootstrap rng_seed =
     (let n = length event_time_days in
      if 0 < n_periods \<and> (min_period_days \<le> 0 \<or> max_period_days \<le> 0) then Inl ValueError
      else
        let periods = np_logspace (log 10 min_period_days) (log 10 max_period_days) n_periods;
            rng = default_rng G rng_seed;
            null_powers_matrix = map (\<lambda>pw. replicate n_periods pw)
                                   (null_loop G n n_bootstrap rng)
        in case scan_periods event_time_days null_powers_matrix
                  (zip [0..<length periods] periods) of
             Inl e \<Rightarrow> Inl e
           | Inr (spec, sig) \<Rightarrow> Inr \<lparr>spectrum = spec, significant_periods = sig\<rparr>)"



section \<open>Interval structure after declustering (case-a4-sub-b.py)\<close>

record phase_interval =
  phase_start :: real
  phase_end :: real

record baseline_interval = phase_interval +
  baseline_id :: nat
  calendar :: string

definition A1B_BASELINE_INTERVALS :: "baseline_interval list" where
  "A1B_BASELINE_INTERVALS =
     [\<lparr>phase_start = 1875 / 10000, phase_end = 25 / 100, baseline_id = 1,
       calendar = ''~Mar 10 - Apr 1''\<rparr>,
      \<lparr>phase_start = 625 / 1000, phase_end = 656 / 1000, baseline_id = 2,
       calendar = ''~Aug 16 - Aug 28''\<rparr>,
      \<lparr>phase_start = 875 / 1000, phase_end = 917 / 1000, baseline_id = 3,
       calendar = ''~Nov 16 - Dec 1''\<rparr>]"


text \<open>The loop of \<open>merge_adjacent_bins\<close> over \<open>elevated[1:]\<close>, with the ranges
  appended so far in front of the result.\<close>

fun merge_loop :: "nat \<Rightarrow> nat \<Rightarrow> nat list \<Rightarrow> (nat \<times> nat) list" where
  "merge_loop start prev [] = [(start, prev)]"
| "merge_loop start prev (idx # rest) =
     (if idx = prev + 1 then merge_loop start idx rest
      else (start, prev) # merge_loop idx idx rest)"

definition merge_adjacent_bins :: "nat list \<Rightarrow> nat \<Rightarrow> (nat \<times> nat) list" where
  "merge_adjacent_bins elevated k =
     (case elevated of [] \<Rightarrow> [] | e0 # rest \<Rightarrow> merge_loop e0 e0 rest)"

definition bins_to_phase_interval :: "nat \<Rightarrow> nat \<Rightarrow> nat \<Rightarrow> py_error + real \<times> real" where
  "bins_to_phase_interval start_bin end_bin k =
     (if k = 0 then Inl ZeroDivisionError
      else Inr (real start_bin / real k, real (end_bin + 1) / real k))"

definition overlap_fraction :: "real \<Rightarrow> real \<Rightarrow> real \<Rightarrow> real \<Rightarrow> real" where
  "overlap_fraction a_start a_end b_start b_end =
     (let a_width = a_end - a_start in
      if a_width \<le> 0 then 0
      else let overlap = max 0 (min a_end b_end - max a_start b_start)
           in overlap / a_width)"

fun classify_loop :: "real \<Rightarrow> real \<Rightarrow> baseline_interval list \<Rightarrow> string" where
  "classify_loop ps pe [] = ''new interval''"
| "classify_loop ps pe (baseline # rest) =
     (let frac = overlap_fraction ps pe (phase_start baseline) (phase_end baseline) in
      if frac > 1 / 2 then ''matches interval '' @ str_nat (baseline_id baseline)
      else classify_loop ps pe rest)"

definition classify_interval :: "real \<Rightarrow> real \<Rightarrow> string" where
  "classify_interval ps pe = classify_loop ps pe A1B_BASELINE_INTERVALS"

section \<open>Hemisphere bin statistics (case-b1-analysis.py)\<close>

text \<open>\<open>compute_rayleigh\<close> returns \<open>(R, p_rayleigh, mean_phase)\<close>. The two means
  are NaN for an empty array, and then so is every component.\<close>

definition compute_rayleigh :: "real list \<Rightarrow> npfloat \<times> npfloat \<times> npfloat" where
  "compute_rayleigh phases =
     (let n = length phases;
          angles = map (\<lambda>p. 2 * pi * p) phases
      in case (np_mean (map cos angles), np_mean (map sin angles)) of
           (Some mean_cos, Some mean_sin) \<Rightarrow>
             (let R = sqrt (mean_cos ^ 2 + mean_sin ^ 2);
                  p_rayleigh = exp (- real n * R ^ 2);
                  mean_angle_rad = arctan2 mean_sin mean_cos;
                  mean_phase = fmod (mean_angle_rad / (2 * pi)) 1
              in (Some R, Some p_rayleigh, Some mean_phase))
         | _ \<Rightarrow> (None, None, None))"


record elevated_interval = phase_interval +
  mean_phase :: real







section \<open>Notions used to state the properties\<close>

text \<open>The next definitions are not functions of the repository. They say, in the words
  of the specification, what the functions above are compared with.\<close>

text \<open>Reading merged \<open>(start, end)\<close> ranges, both ends inclusive, back as the list
  of the bin indices they cover.\<close>

definition expand_ranges :: "(nat \<times> nat) list \<Rightarrow> nat list" where
  "expand_ranges ranges = concat (map (\<lambda>(start_bin, end_bin). [start_bin..<Suc end_bin]) ranges)"

text \<open>The recovered interval \<open>[ps, pe)\<close> has a width, and its overlap with the
  baseline interval, divided by that width, exceeds one half.\<close>

definition overlap_exceeds_half :: "real \<Rightarrow> real \<Rightarrow> baseline_interval \<Rightarrow> bool" where
  "overlap_exceeds_half ps pe b =
     (0 < pe - ps \<and>
      1 / 2 < max 0 (min pe (phase_end b) - max ps (phase_start b)) / (pe - ps))"





text \<open>Baseline interval \<open>i\<close> of \<open>A1B_INTERVALS\<close> (counted from 0), both ends
  included, contains at least one of the phases.\<close>

definition interval_hit :: "real list \<Rightarrow> nat \<Rightarrow> bool" where
  "interval_hit phases i =
     list_ex (\<lambda>p. fst (A1B_INTERVALS ! i) \<le> p \<and> p \<le> snd (A1B_INTERVALS ! i)) phases"

text \<open>What one pass of the loop of \<open>mfpa_scan\<close> appends to the spectrum for grid
  point \<open>j\<close> with the non-zero period \<open>T\<close>, whether the pass also appends to the
  significant periods, and what it appends there.\<close>

definition entry_at :: "real list \<Rightarrow> real list list \<Rightarrow> nat \<times> real \<Rightarrow> spectrum_entry" where
  "entry_at event_time_days null_powers_matrix jT =
     (case jT of (j, T) \<Rightarrow>
        let pw = mfpa_power (map (\<lambda>t. 2 * pi * (fmod t T / T)) event_time_days);
            column = map (\<lambda>row. row ! j) null_powers_matrix
        in \<lparr>period_days = T, entry_power = pw, p_mfpa = fraction_at_least column pw,
            a1b_consistency = consistency_label [interval_hit (predicted_phases T) 0,
                                                 interval_hit (predicted_phases T) 1,
                                                 interval_hit (predicted_phases T) 2],
            p95_threshold = np_percentile column 95,
            p99_threshold = np_percentile column 99\<rparr>)"

definition exceeds_p95 :: "spectrum_entry \<Rightarrow> bool" where
  "exceeds_p95 e = (case p95_threshold e of Some thr \<Rightarrow> entry_power e > thr | None \<Rightarrow> False)"

definition summary_of :: "spectrum_entry \<Rightarrow> period_summary" where
  "summary_of e = \<lparr>period_days = period_days e, entry_power = entry_power e,
                   p_mfpa = p_mfpa e, a1b_consistency = a1b_consistency e\<rparr>"


text \<open>A generator to evaluate the model with: its state counts the draws, and every
  number it draws is the lower bound of the range.\<close>

definition lower_bound_generator :: "int np_random" where
  "lower_bound_generator =
     \<lparr>default_rng = (\<lambda>seed. seed), uniform = (\<lambda>g lo hi size. (replicate size lo, g + 1))\<rparr>"


section \<open>Decimal strings of small numbers\<close>

lemma str_nat_digit: "n < 10 \<Longrightarrow> str_nat n = digit_str n"
  by (subst str_nat.simps) simp

lemma str_nat_small:
  "str_nat 1 = ''1''" "str_nat 2 = ''2''" "str_nat 3 = ''3''" "str_nat (Suc 0) = ''1''"
  "str_nat (Suc (Suc 0)) = ''2''" "str_nat (Suc (Suc (Suc 0))) = ''3''"
  by (simp_all add: str_nat_digit digit_str_def)



section \<open>Clusters and the two Schuster statistics\<close>



lemma assign_sweep_range:
  "set (c # assign_sweep dt c p ts) = {c..last (c # assign_sweep dt c p ts)}"
proof (induction ts arbitrary: c p)
  case Nil
  then show ?case by simp
next
  case (Cons t ts)
  define c' where "c' = (if t - p \<ge> dt then c + 1 else c)"
  have unf: "assign_sweep dt c p (t # ts) = c' # assign_sweep dt c' t ts"
    by (simp add: Let_def c'_def)
  have ih: "set (c' # assign_sweep dt c' t ts) = {c'..last (c' # assign_sweep dt c' t ts)}"
    by (rule Cons.IH)
  then have "c' \<le> last (c' # assign_sweep dt c' t ts)"
    by (metis atLeastAtMost_iff list.set_intros(1))
  moreover have "c \<le> c'" "c' \<le> c + 1" by (simp_all add: c'_def)
  ultimately have "insert c {c'..last (c' # assign_sweep dt c' t ts)}
      = {c..last (c' # assign_sweep dt c' t ts)}"
    by auto
  with ih show ?case unfolding unf by simp
qed

lemma assign_clusters_range:
  assumes "ts \<noteq> []"
  shows "set (assign_clusters ts dt) = {0..<last (assign_clusters ts dt) + 1}"
proof -
  from assms obtain t0 rest where ts: "ts = t0 # rest" by (cases ts) auto
  have "{0..last (0 # assign_sweep dt 0 t0 rest)} = {0..<last (0 # assign_sweep dt 0 t0 rest) + 1}"
    by auto
  with assign_sweep_range [of 0 dt t0 rest] show ?thesis
    unfolding ts by (simp add: assign_clusters_def)
qed





lemma cluster_members_elem:
  assumes "length ids = length xs"
  shows "x \<in> set (cluster_members ids xs c) \<longleftrightarrow> (\<exists>i < length xs. ids ! i = c \<and> xs ! i = x)"
proof -
  have "x \<in> set (cluster_members ids xs c) \<longleftrightarrow> (c, x) \<in> set (zip ids xs)"
    by (force simp: cluster_members_def)
  also have "\<dots> \<longleftrightarrow> (\<exists>i < length xs. ids ! i = c \<and> xs ! i = x)"
    using assms by (auto simp: in_set_zip)
  finally show ?thesis .
qed



lemma cluster_unit_nonempty:
  assumes "xs \<noteq> []"
  shows "\<exists>u. cluster_unit xs = Some u"
  using assms by (simp add: cluster_unit_def np_mean_def Let_def)


lemma nan_sum_all_Some:
  "\<forall>x \<in> set xs. x \<noteq> None \<Longrightarrow> \<exists>v. nan_sum xs = Some v"
  by (induction xs) auto

lemma compute_d2_nonneg: "0 \<le> compute_d2 c s n"
  by (simp add: compute_d2_def)

lemma standard_p_range: "0 \<le> d2 \<Longrightarrow> 0 < standard_p_from_d2 d2 \<and> standard_p_from_d2 d2 \<le> 1"
  by (simp add: standard_p_from_d2_def)

lemma assign_clusters_length: "length (assign_clusters ts dt) = length ts"
proof (cases ts)
  case Nil
  then show ?thesis by (simp add: assign_clusters_def)
next
  case (Cons t0 rest)
  have "length (assign_sweep dt c p xs) = length xs" for c p xs
    by (induction xs arbitrary: c p) (simp_all add: Let_def)
  with Cons show ?thesis by (simp add: assign_clusters_def)
qed

lemma cluster_nonempty:
  assumes "ts \<noteq> []" "c < last (assign_clusters ts dt) + 1" "length xs = length ts"
  shows "cluster_members (assign_clusters ts dt) xs c \<noteq> []"
proof -
  from assms(2) assign_clusters_range [OF assms(1), of dt]
  have "c \<in> set (assign_clusters ts dt)" by simp
  then obtain i where i: "i < length (assign_clusters ts dt)" "assign_clusters ts dt ! i = c"
    by (auto simp: in_set_conv_nth)
  with assms(3) have "i < length xs" by (simp add: assign_clusters_length)
  with i(2) have "xs ! i \<in> set (cluster_members (assign_clusters ts dt) xs c)"
    using cluster_members_elem [of "assign_clusters ts dt" xs "xs ! i" c] assms(3)
    by (auto simp: assign_clusters_length)
  then show ?thesis by auto
qed


lemma schuster_fields:
  assumes "ts \<noteq> []" "period \<noteq> 0"
  shows "n_events (schuster_single_period ts period dt) = length ts"
    and "n_clusters (schuster_single_period ts period dt) = last (assign_clusters ts dt) + 1"
    and "D2 (schuster_single_period ts period dt)
         = Some (compute_d2 (sum_list (map cos (compute_phases ts period)))
                   (sum_list (map sin (compute_phases ts period))) (length ts))"
    and "p_standard (schuster_single_period ts period dt)
         = Some (standard_p_from_d2
             (compute_d2 (sum_list (map cos (compute_phases ts period)))
                (sum_list (map sin (compute_phases ts period))) (length ts)))"
    and "p_cluster_robust (schuster_single_period ts period dt)
         = (case (nan_sum (map (map_option fst)
                     (map (\<lambda>cid. cluster_unit (cluster_members (assign_clusters ts dt)
                                          (compute_phases ts period) cid))
                        [0..<last (assign_clusters ts dt) + 1])),
                  nan_sum (map (map_option snd)
                     (map (\<lambda>cid. cluster_unit (cluster_members (assign_clusters ts dt)
                                          (compute_phases ts period) cid))
                        [0..<last (assign_clusters ts dt) + 1]))) of
              (Some c, Some s) \<Rightarrow>
                Some (standard_p_from_d2 (compute_d2 c s (last (assign_clusters ts dt) + 1)))
            | _ \<Rightarrow> None)"
  using assms
  by (simp_all only: schuster_single_period_def Let_def length_0_conv if_False
        schuster_result.select_convs)


lemma schuster_p_values_in_range:
  assumes "period \<noteq> 0"
  shows "\<exists>ps pc. p_standard (schuster_single_period ts period dt) = Some ps
           \<and> 0 < ps \<and> ps \<le> 1
           \<and> p_cluster_robust (schuster_single_period ts period dt) = Some pc
           \<and> 0 < pc \<and> pc \<le> 1"
proof (cases "ts = []")
  case True
  then show ?thesis by (simp add: schuster_single_period_def)
next
  case ne: False
  let ?ids = "assign_clusters ts dt"
  let ?ph = "compute_phases ts period"
  let ?units = "map (\<lambda>cid. cluster_unit (cluster_members ?ids ?ph cid)) [0..<last ?ids + 1]"
  have lph: "length ?ph = length ts" by (simp add: compute_phases_def)
  have all: "\<forall>u \<in> set ?units. u \<noteq> None"
  proof
    fix u assume "u \<in> set ?units"
    then have "u \<in> (\<lambda>cid. cluster_unit (cluster_members ?ids ?ph cid)) ` set [0..<last ?ids + 1]"
      by (simp only: set_map)
    then obtain c where "c \<in> set [0..<last ?ids + 1]"
      and u: "u = cluster_unit (cluster_members ?ids ?ph c)"
      by blast
    then have c: "c < last ?ids + 1" by (simp only: set_upt atLeastLessThan_iff)
    from cluster_unit_nonempty [OF cluster_nonempty [OF ne c lph]] u show "u \<noteq> None" by auto
  qed
  have "\<forall>x \<in> set (map (map_option fst) ?units). x \<noteq> None" using all by auto
  from nan_sum_all_Some [OF this] obtain C where C: "nan_sum (map (map_option fst) ?units) = Some C"
    by blast
  have "\<forall>x \<in> set (map (map_option snd) ?units). x \<noteq> None" using all by auto
  from nan_sum_all_Some [OF this] obtain S where S: "nan_sum (map (map_option snd) ?units) = Some S"
    by blast
  have pc: "p_cluster_robust (schuster_single_period ts period dt)
      = Some (standard_p_from_d2 (compute_d2 C S (last ?ids + 1)))"
    by (simp only: schuster_fields(5) [OF ne assms] C S prod.case option.case)
  from schuster_fields(4) [OF ne assms, of dt] pc
    standard_p_range [OF compute_d2_nonneg]
  show ?thesis by blast
qed


section \<open>Degenerate inputs\<close>

text \<open>
  Claim C4. For an empty event-time array \<open>schuster_single_period\<close> returns the sentinel
  result (no events, no clusters, \<open>D2 = 0\<close>, both p-values 1) instead of raising;
  \<open>mfpa_power\<close> of an empty phase array is 0; and the \<open>D\<^sup>2\<close> statistic with
  \<open>n = 0\<close> is 0 whatever the sums are, so the zero denominator is never divided by.
\<close>

theorem empty_input_sentinels:
  "schuster_single_period [] period dt =
     \<lparr>n_events = 0, n_clusters = 0, D2 = Some 0, p_standard = Some 1,
      p_cluster_robust = Some 1\<rparr>
   \<and> mfpa_power [] = 0
   \<and> compute_d2 cos_sum sin_sum 0 = 0"
  by (simp add: schuster_single_period_def mfpa_power_def compute_d2_def)

section \<open>Cluster assignment\<close>

lemma length_assign_sweep: "length (assign_sweep dt c p ts) = length ts"
  by (induction ts arbitrary: c p) (simp_all add: Let_def)

lemma assign_sweep_nth_Suc:
  "Suc i < length ts \<Longrightarrow>
   assign_sweep dt c p ts ! Suc i =
     assign_sweep dt c p ts ! i + (if ts ! Suc i - ts ! i \<ge> dt then 1 else 0)"
proof (induction ts arbitrary: c p i)
  case Nil
  then show ?case by simp
next
  case (Cons t ts)
  show ?case
  proof (cases i)
    case 0
    with Cons.prems obtain u us where "ts = u # us" by (cases ts) auto
    with 0 show ?thesis by (simp add: Let_def)
  next
    case (Suc j)
    with Cons.prems have "Suc j < length ts" by simp
    from Cons.IH [OF this] Suc show ?thesis by (simp add: Let_def)
  qed
qed

lemma assign_sweep_all_gaps:
  "\<forall>i < length ts. (p # ts) ! Suc i - (p # ts) ! i \<ge> dt \<Longrightarrow>
   assign_sweep dt c p ts = [Suc c ..< Suc c + length ts]"
proof (induction ts arbitrary: c p)
  case Nil
  then show ?case by simp
next
  case (Cons t ts)
  from Cons.prems have first: "t - p \<ge> dt" by auto
  from Cons.prems have "\<forall>i < length ts. (t # ts) ! Suc i - (t # ts) ! i \<ge> dt"
    by auto
  from Cons.IH [OF this, of "Suc c"]
  have "assign_sweep dt (Suc c) t ts = [Suc (Suc c)..<Suc (Suc c) + length ts]" .
  moreover have "[Suc c..<Suc c + length (t # ts)] = Suc c # [Suc (Suc c)..<Suc (Suc c) + length ts]"
    using upt_conv_Cons [of "Suc c" "Suc c + length (t # ts)"] by simp
  moreover have "assign_sweep dt c p (t # ts) = Suc c # assign_sweep dt (Suc c) t ts"
    using first by (simp add: Let_def)
  ultimately show ?case by (simp only:)
qed

text \<open>
  Claim C8. The cluster identifiers start at 0, and the identifier of event \<open>i\<close> is
  that of event \<open>i - 1\<close>, plus one exactly when the gap
  \<open>times[i] - times[i - 1]\<close> is at least the threshold: a new cluster begins at these
  indices and nowhere else. When every consecutive gap is at least the threshold, the
  identifiers are \<open>0, \<dots>, n - 1\<close>, so the \<open>n\<close> events are \<open>n\<close> distinct
  clusters. Neither statement needs the times to be sorted.
\<close>

theorem assign_clusters_boundaries:
  "length (assign_clusters ts dt) = length ts
   \<and> (ts \<noteq> [] \<longrightarrow> assign_clusters ts dt ! 0 = 0)
   \<and> (\<forall>i. 0 < i \<and> i < length ts \<longrightarrow>
         assign_clusters ts dt ! i =
           assign_clusters ts dt ! (i - 1) + (if ts ! i - ts ! (i - 1) \<ge> dt then 1 else 0))
   \<and> ((\<forall>i. 0 < i \<and> i < length ts \<longrightarrow> ts ! i - ts ! (i - 1) \<ge> dt) \<longrightarrow>
         assign_clusters ts dt = [0..<length ts]
         \<and> distinct (assign_clusters ts dt)
         \<and> card (set (assign_clusters ts dt)) = length ts)"
proof (cases ts)
  case Nil
  then show ?thesis by (simp add: assign_clusters_def)
next
  case (Cons t0 rest)
  have ids: "assign_clusters ts dt = 0 # assign_sweep dt 0 t0 rest"
    using Cons by (simp add: assign_clusters_def)
  have len: "length (assign_clusters ts dt) = length ts"
    using Cons ids by (simp add: length_assign_sweep)
  have step: "assign_clusters ts dt ! i =
           assign_clusters ts dt ! (i - 1) + (if ts ! i - ts ! (i - 1) \<ge> dt then 1 else 0)"
    if "0 < i" "i < length ts" for i
  proof (cases i)
    case 0
    with that show ?thesis by simp
  next
    case (Suc j)
    show ?thesis
    proof (cases j)
      case 0
      with Suc that Cons obtain u us where "rest = u # us" by (cases rest) auto
      with 0 Suc Cons ids show ?thesis by (simp add: Let_def)
    next
      case (Suc m)
      with \<open>i = Suc j\<close> that Cons have "Suc m < length rest" by simp
      from assign_sweep_nth_Suc [OF this, of dt 0 t0] Suc \<open>i = Suc j\<close> Cons ids
      show ?thesis by simp
    qed
  qed
  have all: "assign_clusters ts dt = [0..<length ts]"
    if gaps: "\<forall>i. 0 < i \<and> i < length ts \<longrightarrow> ts ! i - ts ! (i - 1) \<ge> dt"
  proof -
    have "\<forall>i < length rest. (t0 # rest) ! Suc i - (t0 # rest) ! i \<ge> dt"
    proof (intro allI impI)
      fix i assume "i < length rest"
      with gaps [rule_format, of "Suc i"] Cons show "(t0 # rest) ! Suc i - (t0 # rest) ! i \<ge> dt"
        by simp
    qed
    from assign_sweep_all_gaps [OF this, of 0]
    have "assign_sweep dt 0 t0 rest = [Suc 0..<Suc (length rest)]" by simp
    moreover have "[0..<Suc (length rest)] = 0 # [Suc 0..<Suc (length rest)]"
      by (rule upt_conv_Cons) simp
    ultimately show ?thesis using ids Cons by simp
  qed
  show ?thesis
  proof (intro conjI allI impI)
    show "length (assign_clusters ts dt) = length ts" by (rule len)
    show "assign_clusters ts dt ! 0 = 0" using ids by simp
  next
    fix i assume "0 < i \<and> i < length ts"
    then show "assign_clusters ts dt ! i =
           assign_clusters ts dt ! (i - 1) + (if ts ! i - ts ! (i - 1) \<ge> dt then 1 else 0)"
      using step by blast
  next
    assume g: "\<forall>i. 0 < i \<and> i < length ts \<longrightarrow> ts ! i - ts ! (i - 1) \<ge> dt"
    show "assign_clusters ts dt = [0..<length ts]" by (rule all [OF g])
    show "distinct (assign_clusters ts dt)" by (simp add: all [OF g])
    show "card (set (assign_clusters ts dt)) = length ts" by (simp add: all [OF g])
  qed
qed

theorem assign_clusters_boundaries_witness:
  "length (assign_clusters [0, 1, 5/2, 4] 1) = 4
   \<and> assign_clusters [0, 1, 5/2, 4] 1 ! 2 = assign_clusters [0, 1, 5/2, 4] 1 ! 1 + 1
   \<and> assign_clusters [0, 1, 5/2, 4] 1 = [0, 1, 2, 3]
   \<and> assign_clusters [0, 1, 3/2, 4] 1 ! 2 = assign_clusters [0, 1, 3/2, 4] 1 ! 1"
proof -
  have gaps: "\<forall>i. 0 < i \<and> i < length [0, 1, 5/2, 4::real] \<longrightarrow>
      [0, 1, 5/2, 4::real] ! i - [0, 1, 5/2, 4] ! (i - 1) \<ge> 1"
    by (simp add: nth_Cons' less_Suc_eq)
  from assign_clusters_boundaries [of "[0, 1, 5/2, 4]" 1] gaps
  have a: "length (assign_clusters [0, 1, 5/2, 4] 1) = 4"
    and b: "assign_clusters [0, 1, 5/2, 4] 1 = [0, 1, 2, 3]"
    by (simp_all add: upt_rec)
  from assign_clusters_boundaries [of "[0, 1, 5/2, 4]" 1]
  have c: "assign_clusters [0, 1, 5/2, 4] 1 ! 2 = assign_clusters [0, 1, 5/2, 4] 1 ! 1 + 1"
    by simp
  from assign_clusters_boundaries [of "[0, 1, 3/2, 4]" 1]
  have d: "assign_clusters [0, 1, 3/2, 4] 1 ! 2 = assign_clusters [0, 1, 3/2, 4] 1 ! 1"
    by simp
  from a b c d show ?thesis by blast
qed

section \<open>Merging adjacent bins\<close>

lemma expand_merge_loop:
  "start \<le> prev \<Longrightarrow> expand_ranges (merge_loop start prev rest) = [start..<Suc prev] @ rest"
proof (induction rest arbitrary: start prev)
  case Nil
  then show ?case by (simp add: expand_ranges_def)
next
  case (Cons idx rest)
  show ?case
  proof (cases "idx = prev + 1")
    case True
    with Cons.prems have "start \<le> idx" by simp
    from Cons.IH [OF this] True Cons.prems show ?thesis by simp
  next
    case False
    have "expand_ranges (merge_loop idx idx rest) = [idx..<Suc idx] @ rest"
      by (rule Cons.IH) simp
    with False show ?thesis by (simp add: expand_ranges_def)
  qed
qed

lemma expand_merge_adjacent_bins: "expand_ranges (merge_adjacent_bins elevated k) = elevated"
proof (cases elevated)
  case Nil
  then show ?thesis by (simp add: merge_adjacent_bins_def expand_ranges_def)
next
  case (Cons e0 rest)
  then show ?thesis by (simp add: merge_adjacent_bins_def expand_merge_loop)
qed

text \<open>
  Claim C9. Merging is idempotent: expanding the ranges that \<open>merge_adjacent_bins\<close>
  returns back into a list of bin indices and merging again gives the same ranges. This
  holds for every list, since expanding the merged ranges gives the list back. When the
  list is sorted and has no duplicates, as a list of elevated bins, the same holds if the
  ranges are read as a set of bins that is listed in ascending order.
\<close>

theorem merge_adjacent_bins_idempotent:
  "merge_adjacent_bins (expand_ranges (merge_adjacent_bins elevated k)) k
     = merge_adjacent_bins elevated k
   \<and> (sorted elevated \<and> distinct elevated \<longrightarrow>
        merge_adjacent_bins
          (sorted_list_of_set (set (expand_ranges (merge_adjacent_bins elevated k)))) k
        = merge_adjacent_bins elevated k)"
  by (simp add: expand_merge_adjacent_bins sorted_list_of_set.idem_if_sorted_distinct)

theorem merge_adjacent_bins_idempotent_witness:
  "merge_adjacent_bins [0, 1, 2, 5, 7, 8] 24 = [(0, 2), (5, 5), (7, 8)]
   \<and> expand_ranges [(0, 2), (5, 5), (7, 8)] = [0, 1, 2, 5, 7, 8]
   \<and> merge_adjacent_bins (expand_ranges (merge_adjacent_bins [0, 1, 2, 5, 7, 8] 24)) 24
       = [(0, 2), (5, 5), (7, 8)]
   \<and> merge_adjacent_bins
       (sorted_list_of_set (set (expand_ranges (merge_adjacent_bins [0, 1, 2, 5, 7, 8] 24)))) 24
       = [(0, 2), (5, 5), (7, 8)]"
proof -
  have m: "merge_adjacent_bins [0, 1, 2, 5, 7, 8] 24 = [(0, 2), (5, 5), (7, 8)]"
    by (simp add: merge_adjacent_bins_def)
  have e: "expand_ranges [(0, 2), (5, 5), (7, 8)] = [0, 1, 2, 5, 7, 8]"
    by (simp add: expand_ranges_def upt_rec)
  have sd: "sorted [0, 1, 2, 5, 7, 8::nat] \<and> distinct [0, 1, 2, 5, 7, 8::nat]" by simp
  from merge_adjacent_bins_idempotent [of "[0, 1, 2, 5, 7, 8]" 24] sd m e
  show ?thesis by simp
qed

section \<open>Classifying a recovered interval\<close>

lemma overlap_fraction_exceeds:
  "(1 / 2 < overlap_fraction ps pe (phase_start b) (phase_end b)) = overlap_exceeds_half ps pe b"
  by (simp add: overlap_fraction_def overlap_exceeds_half_def Let_def)

lemma classify_loop_find:
  "classify_loop ps pe bs =
     (case List.find (overlap_exceeds_half ps pe) bs of
        None \<Rightarrow> ''new interval''
      | Some b \<Rightarrow> ''matches interval '' @ str_nat (baseline_id b))"
  by (induction bs) (simp_all add: Let_def overlap_fraction_exceeds [symmetric])

lemma baseline_ids:
  "baseline_id (A1B_BASELINE_INTERVALS ! 0) = 1"
  "baseline_id (A1B_BASELINE_INTERVALS ! Suc 0) = 2"
  "baseline_id (A1B_BASELINE_INTERVALS ! Suc (Suc 0)) = 3"
  by (simp_all add: A1B_BASELINE_INTERVALS_def)

lemma classify_interval_cases:
  "classify_interval ps pe =
     (if overlap_exceeds_half ps pe (A1B_BASELINE_INTERVALS ! 0) then ''matches interval 1''
      else if overlap_exceeds_half ps pe (A1B_BASELINE_INTERVALS ! Suc 0)
        then ''matches interval 2''
      else if overlap_exceeds_half ps pe (A1B_BASELINE_INTERVALS ! Suc (Suc 0))
        then ''matches interval 3''
      else ''new interval'')"
  by (simp add: classify_interval_def classify_loop_find A1B_BASELINE_INTERVALS_def
      str_nat_small)

text \<open>
  Claim C6. \<open>classify_interval\<close> returns "matches interval i" for the first baseline
  interval, in the order of \<open>A1B_BASELINE_INTERVALS\<close>, whose overlap with the recovered
  interval divided by the width of the recovered interval exceeds 0.5, and "new interval"
  when there is none. So the answer is "matches interval i" exactly when baseline \<open>i\<close>
  qualifies and no earlier baseline does. A recovered interval of width zero or less has
  no such quotient; the code gives it the fraction 0 and so "new interval".
\<close>

theorem classify_interval_first_match:
  "classify_interval ps pe =
     (case List.find (overlap_exceeds_half ps pe) A1B_BASELINE_INTERVALS of
        None \<Rightarrow> ''new interval''
      | Some b \<Rightarrow> ''matches interval '' @ str_nat (baseline_id b))
   \<and> (classify_interval ps pe = ''new interval'' \<longleftrightarrow>
        (\<forall>b \<in> set A1B_BASELINE_INTERVALS. \<not> overlap_exceeds_half ps pe b))
   \<and> (\<forall>i < length A1B_BASELINE_INTERVALS.
        classify_interval ps pe
          = ''matches interval '' @ str_nat (baseline_id (A1B_BASELINE_INTERVALS ! i))
        \<longleftrightarrow> overlap_exceeds_half ps pe (A1B_BASELINE_INTERVALS ! i)
            \<and> (\<forall>j < i. \<not> overlap_exceeds_half ps pe (A1B_BASELINE_INTERVALS ! j)))"
proof (intro conjI)
  show first: "classify_interval ps pe =
     (case List.find (overlap_exceeds_half ps pe) A1B_BASELINE_INTERVALS of
        None \<Rightarrow> ''new interval''
      | Some b \<Rightarrow> ''matches interval '' @ str_nat (baseline_id b))"
    by (simp add: classify_interval_def classify_loop_find)
  show "classify_interval ps pe = ''new interval'' \<longleftrightarrow>
        (\<forall>b \<in> set A1B_BASELINE_INTERVALS. \<not> overlap_exceeds_half ps pe b)"
    unfolding first
    by (auto simp: find_None_iff find_Some_iff split: option.splits)
  show "\<forall>i < length A1B_BASELINE_INTERVALS.
        classify_interval ps pe
          = ''matches interval '' @ str_nat (baseline_id (A1B_BASELINE_INTERVALS ! i))
        \<longleftrightarrow> overlap_exceeds_half ps pe (A1B_BASELINE_INTERVALS ! i)
            \<and> (\<forall>j < i. \<not> overlap_exceeds_half ps pe (A1B_BASELINE_INTERVALS ! j))"
  proof (intro allI impI)
    fix i assume "i < length A1B_BASELINE_INTERVALS"
    then have "i = 0 \<or> i = Suc 0 \<or> i = Suc (Suc 0)"
      by (auto simp: A1B_BASELINE_INTERVALS_def)
    then show "classify_interval ps pe
          = ''matches interval '' @ str_nat (baseline_id (A1B_BASELINE_INTERVALS ! i))
        \<longleftrightarrow> overlap_exceeds_half ps pe (A1B_BASELINE_INTERVALS ! i)
            \<and> (\<forall>j < i. \<not> overlap_exceeds_half ps pe (A1B_BASELINE_INTERVALS ! j))"
    proof (elim disjE)
      assume "i = 0"
      then show ?thesis
        by (simp add: classify_interval_cases baseline_ids str_nat_small)
    next
      assume "i = Suc 0"
      then show ?thesis
        by (simp add: classify_interval_cases baseline_ids str_nat_small)
    next
      assume "i = Suc (Suc 0)"
      then show ?thesis
        by (auto simp: classify_interval_cases baseline_ids str_nat_small less_Suc_eq)
    qed
  qed
qed

theorem classify_interval_first_match_witness:
  "classify_interval (19 / 100) (24 / 100) = ''matches interval 1''
   \<and> classify_interval (30 / 100) (40 / 100) = ''new interval''
   \<and> overlap_exceeds_half (19 / 100) (24 / 100) (A1B_BASELINE_INTERVALS ! 0)"
proof -
  have a: "List.find (overlap_exceeds_half (19 / 100) (24 / 100)) A1B_BASELINE_INTERVALS
           = Some (A1B_BASELINE_INTERVALS ! 0)"
    by (simp add: A1B_BASELINE_INTERVALS_def overlap_exceeds_half_def)
  have b: "List.find (overlap_exceeds_half (30 / 100) (40 / 100)) A1B_BASELINE_INTERVALS = None"
    by (simp add: A1B_BASELINE_INTERVALS_def overlap_exceeds_half_def)
  have c: "baseline_id (A1B_BASELINE_INTERVALS ! 0) = 1"
    by (simp add: A1B_BASELINE_INTERVALS_def)
  have d: "0 < length A1B_BASELINE_INTERVALS" by (simp add: A1B_BASELINE_INTERVALS_def)
  from classify_interval_first_match [of "19 / 100" "24 / 100"] a c
  have m: "classify_interval (19 / 100) (24 / 100) = ''matches interval 1''"
    by (simp add: str_nat_small)
  from classify_interval_first_match [of "30 / 100" "40 / 100"] b
  have n: "classify_interval (30 / 100) (40 / 100) = ''new interval''"
    by simp
  from classify_interval_first_match [of "19 / 100" "24 / 100"] d m c
  have e: "overlap_exceeds_half (19 / 100) (24 / 100) (A1B_BASELINE_INTERVALS ! 0)"
    by (auto simp: str_nat_small)
  from m n e show ?thesis by blast
qed

section \<open>Elevated intervals\<close>

































section \<open>The A1b consistency label\<close>

lemma mark_interval_hits_default:
  "mark_interval_hits p A1B_INTERVALS 0 [a, b, c] =
     Inr [a \<or> (fst (A1B_INTERVALS ! 0) \<le> p \<and> p \<le> snd (A1B_INTERVALS ! 0)),
          b \<or> (fst (A1B_INTERVALS ! 1) \<le> p \<and> p \<le> snd (A1B_INTERVALS ! 1)),
          c \<or> (fst (A1B_INTERVALS ! 2) \<le> p \<and> p \<le> snd (A1B_INTERVALS ! 2))]"
  by (auto simp: A1B_INTERVALS_def)

lemma mark_hits_default:
  "mark_hits ps A1B_INTERVALS [a, b, c] =
     Inr [a \<or> interval_hit ps 0, b \<or> interval_hit ps 1, c \<or> interval_hit ps 2]"
proof (induction ps arbitrary: a b c)
  case Nil
  then show ?case by (simp add: interval_hit_def)
next
  case (Cons p ps)
  show ?case
    unfolding mark_hits.simps mark_interval_hits_default
    by (simp add: Cons.IH) (auto simp: interval_hit_def)
qed

lemma a1b_consistency_label_hits:
  "period \<noteq> 0 \<Longrightarrow>
   a1b_consistency_label period None =
     Inr (consistency_label [interval_hit (predicted_phases period) 0,
                             interval_hit (predicted_phases period) 1,
                             interval_hit (predicted_phases period) 2])"
  by (simp add: a1b_consistency_label_def mark_hits_default)










section \<open>The MFPA scan\<close>

lemma mfpa_power_nonneg: "0 \<le> mfpa_power phases"
  by (simp add: mfpa_power_def Let_def)

lemma scan_periods_map:
  "\<forall>(j, T) \<in> set jts. T \<noteq> 0 \<Longrightarrow>
   scan_periods ts M jts =
     Inr (map (entry_at ts M) jts,
          map summary_of (filter exceeds_p95 (map (entry_at ts M) jts)))"
proof (induction jts)
  case Nil
  then show ?case by simp
next
  case (Cons jT jts)
  obtain j T where jT: "jT = (j, T)" by (cases jT)
  with Cons.prems have T: "T \<noteq> 0" and rest: "\<forall>(j, T) \<in> set jts. T \<noteq> 0" by auto
  define pw where "pw = mfpa_power (map (\<lambda>t. 2 * pi * (fmod t T / T)) ts)"
  define column where "column = map (\<lambda>row. row ! j) M"
  define lab where "lab = consistency_label [interval_hit (predicted_phases T) 0,
      interval_hit (predicted_phases T) 1, interval_hit (predicted_phases T) 2]"
  define E where "E = \<lparr>period_days = T, entry_power = pw,
       p_mfpa = fraction_at_least column pw,
       a1b_consistency = lab, p95_threshold = np_percentile column 95,
       p99_threshold = np_percentile column 99\<rparr>"
  define S where "S = \<lparr>period_days = T, entry_power = pw,
       p_mfpa = fraction_at_least column pw, a1b_consistency = lab\<rparr>"
  define tl_sig where "tl_sig = map summary_of (filter exceeds_p95 (map (entry_at ts M) jts))"
  have e: "entry_at ts M (j, T) = E"
    by (simp only: entry_at_def prod.case Let_def pw_def column_def lab_def E_def)
  have l: "a1b_consistency_label T None = Inr lab"
    unfolding lab_def by (rule a1b_consistency_label_hits [OF T])
  have sig: "exceeds_p95 E
      = (case np_percentile column 95 of Some thr \<Rightarrow> pw > thr | None \<Rightarrow> False)"
    by (cases "np_percentile column 95") (simp_all add: E_def exceeds_p95_def)
  have sm: "summary_of E = S"
    by (simp add: E_def S_def summary_of_def)
  have ih: "scan_periods ts M jts = Inr (map (entry_at ts M) jts, tl_sig)"
    unfolding tl_sig_def by (rule Cons.IH [OF rest])
  have "scan_periods ts M ((j, T) # jts) =
      Inr (E # map (entry_at ts M) jts,
           if (case np_percentile column 95 of Some thr \<Rightarrow> pw > thr | None \<Rightarrow> False)
           then S # tl_sig else tl_sig)"
    by (simp only: scan_periods.simps Let_def l ih sum.case prod.case
          pw_def [symmetric] column_def [symmetric] E_def S_def)
  then show ?case unfolding jT by (simp add: e sig sm tl_sig_def)
qed


lemma length_np_linspace: "length (np_linspace start stop num) = num"
  by (simp add: np_linspace_def Let_def)

lemma length_np_logspace: "length (np_logspace start stop num) = num"
  by (simp add: np_logspace_def length_np_linspace)

lemma np_linspace_bounds:
  assumes "start \<le> stop" "y \<in> set (np_linspace start stop num)"
  shows "start \<le> y \<and> y \<le> stop"
proof (cases "num = 0 \<or> num = 1")
  case True
  with assms show ?thesis by (auto simp: np_linspace_def)
next
  case False
  then have num: "2 \<le> num" by simp
  define step where "step = (stop - start) / real (num - 1)"
  from False have "np_linspace start stop num
      = map (\<lambda>i. if i = num - 1 then stop else real i * step + start) [0..<num]"
    by (simp add: np_linspace_def Let_def step_def)
  with assms(2) have "y \<in> (\<lambda>i. if i = num - 1 then stop else real i * step + start) ` {0..<num}"
    by (simp only: set_map set_upt)
  then obtain i where i: "i < num"
    and y: "y = (if i = num - 1 then stop else real i * step + start)"
    by auto
  have step0: "0 \<le> step" using assms(1) num by (simp add: step_def)
  have "real i * step \<le> real (num - 1) * step"
    using i step0 by (intro mult_right_mono) simp_all
  also have "\<dots> = stop - start" using num by (simp add: step_def)
  finally have "real i * step + start \<le> stop" by simp
  moreover have "start \<le> real i * step + start" using step0 by simp
  ultimately show ?thesis using y assms(1) by simp
qed

lemma np_linspace_ends:
  assumes "2 \<le> num"
  shows "hd (np_linspace start stop num) = start" "last (np_linspace start stop num) = stop"
proof -
  from assms have ne: "[0..<num] \<noteq> []" by simp
  have "hd (np_linspace start stop num)
        = (\<lambda>i. if i = num - 1 then stop else real i * ((stop - start) / real (num - 1)) + start)
            (hd [0..<num])"
    using assms ne by (simp add: np_linspace_def Let_def hd_map del: upt_eq_Nil_conv)
  also have "hd [0..<num] = 0" using assms by (simp add: hd_upt)
  finally show "hd (np_linspace start stop num) = start" using assms by simp
  have "last (np_linspace start stop num)
        = (\<lambda>i. if i = num - 1 then stop else real i * ((stop - start) / real (num - 1)) + start)
            (last [0..<num])"
    using assms ne by (simp add: np_linspace_def Let_def last_map del: upt_eq_Nil_conv)
  also have "last [0..<num] = num - 1" using assms by (simp add: last_upt)
  finally show "last (np_linspace start stop num) = stop" by simp
qed

lemma np_logspace_grid:
  assumes "0 < lo" "lo \<le> hi" "2 \<le> num"
  shows "hd (np_logspace (log 10 lo) (log 10 hi) num) = lo"
    and "last (np_logspace (log 10 lo) (log 10 hi) num) = hi"
    and "\<forall>T \<in> set (np_logspace (log 10 lo) (log 10 hi) num). lo \<le> T \<and> T \<le> hi"
proof -
  let ?ys = "np_linspace (log 10 lo) (log 10 hi) num"
  from assms have ne: "?ys \<noteq> []" using length_np_linspace [of "log 10 lo" "log 10 hi" num] by auto
  have lohi: "log 10 lo \<le> log 10 hi" using assms by simp
  from assms have hi: "0 < hi" by simp
  show "hd (np_logspace (log 10 lo) (log 10 hi) num) = lo"
    using ne np_linspace_ends(1) [OF assms(3)] assms(1)
    by (simp add: np_logspace_def hd_map)
  show "last (np_logspace (log 10 lo) (log 10 hi) num) = hi"
    using ne np_linspace_ends(2) [OF assms(3)] hi
    by (simp add: np_logspace_def last_map)
  show "\<forall>T \<in> set (np_logspace (log 10 lo) (log 10 hi) num). lo \<le> T \<and> T \<le> hi"
  proof
    fix T assume "T \<in> set (np_logspace (log 10 lo) (log 10 hi) num)"
    then obtain y where y: "y \<in> set ?ys" and T: "T = 10 powr y"
      by (auto simp: np_logspace_def)
    from np_linspace_bounds [OF lohi y] have "log 10 lo \<le> y" "y \<le> log 10 hi" by simp_all
    then have "10 powr (log 10 lo) \<le> 10 powr y" "10 powr y \<le> 10 powr (log 10 hi)"
      by simp_all
    with assms(1) hi T show "lo \<le> T \<and> T \<le> hi" by simp
  qed
qed


lemma entry_at_fields:
  "period_days (entry_at ts M (j, T)) = T"
  "entry_power (entry_at ts M (j, T)) = mfpa_power (map (\<lambda>t. 2 * pi * (fmod t T / T)) ts)"
  "p95_threshold (entry_at ts M (j, T)) = np_percentile (map (\<lambda>row. row ! j) M) 95"
  "p99_threshold (entry_at ts M (j, T)) = np_percentile (map (\<lambda>row. row ! j) M) 99"
  "p_mfpa (entry_at ts M (j, T))
     = fraction_at_least (map (\<lambda>row. row ! j) M) (entry_power (entry_at ts M (j, T)))"
  by (simp_all add: entry_at_def Let_def)

lemma np_logspace_pos: "T \<in> set (np_logspace a b num) \<Longrightarrow> 0 < T"
  by (auto simp: np_logspace_def)

lemma mfpa_scan_result:
  assumes "0 < lo" "0 < hi"
  shows "mfpa_scan G ts np lo hi nb seed =
     Inr \<lparr>spectrum =
            map (entry_at ts (map (replicate np) (null_loop G (length ts) nb (default_rng G seed))))
              (zip [0..<np] (np_logspace (log 10 lo) (log 10 hi) np)),
          significant_periods =
            map summary_of (filter exceeds_p95
              (map (entry_at ts (map (replicate np)
                      (null_loop G (length ts) nb (default_rng G seed))))
                 (zip [0..<np] (np_logspace (log 10 lo) (log 10 hi) np))))\<rparr>"
proof -
  let ?periods = "np_logspace (log 10 lo) (log 10 hi) np"
  have "\<forall>(j, T) \<in> set (zip [0..<length ?periods] ?periods). T \<noteq> 0"
  proof (clarify)
    fix j assume "(j, 0) \<in> set (zip [0..<length ?periods] ?periods)"
    then have "0 \<in> set ?periods" by (rule set_zip_rightD)
    from np_logspace_pos [OF this] show False by simp
  qed
  from scan_periods_map [OF this] assms show ?thesis
    by (simp add: mfpa_scan_def Let_def length_np_logspace)
qed


text \<open>
  Claim C7. With the default grid (300 periods from 0.25 to 548 days) \<open>mfpa_scan\<close>
  returns, for every event-time array, empty or not, every number of bootstrap replicates
  and every seed, a spectrum of exactly 300 entries; its first period is 0.25 days and is
  the smallest, its last period is 548 days and is the largest, and every power is
  non-negative. The periods are real numbers here, so the two ends of the logarithmic
  grid are exact.
\<close>

theorem mfpa_scan_default_grid:
  "\<exists>res. mfpa_scan G ts MFPA_N_PERIODS MFPA_MIN_DAYS MFPA_MAX_DAYS n_bootstrap rng_seed = Inr res
     \<and> length (spectrum res) = 300
     \<and> Min (period_days ` set (spectrum res)) = 25 / 100
     \<and> Max (period_days ` set (spectrum res)) = 548
     \<and> period_days (hd (spectrum res)) = 25 / 100
     \<and> period_days (last (spectrum res)) = 548
     \<and> (\<forall>e \<in> set (spectrum res). 0 \<le> entry_power e)"
proof -
  define M where "M = map (replicate (300::nat))
      (null_loop G (length ts) n_bootstrap (default_rng G rng_seed))"
  define periods where "periods = np_logspace (log 10 (25 / 100)) (log 10 548) 300"
  define spec where "spec = map (entry_at ts M) (zip [0..<300] periods)"
  have len: "length periods = 300" by (simp add: periods_def length_np_logspace)
  from mfpa_scan_result [of "25 / 100" 548 G ts 300 n_bootstrap rng_seed]
  obtain res where res: "mfpa_scan G ts MFPA_N_PERIODS MFPA_MIN_DAYS MFPA_MAX_DAYS
        n_bootstrap rng_seed = Inr res"
    and sp: "spectrum res = spec"
    by (simp add: MFPA_N_PERIODS_def MFPA_MIN_DAYS_def MFPA_MAX_DAYS_def spec_def M_def
        periods_def)
  have pd: "map period_days spec = periods"
  proof -
    have "map period_days spec = map snd (zip [0..<300] periods)"
      unfolding spec_def by (auto simp: entry_at_fields)
    also have "\<dots> = periods" using len by simp
    finally show ?thesis .
  qed
  have ne: "spec \<noteq> []" using len by (auto simp: spec_def)
  have grid: "hd periods = 25 / 100" "last periods = 548"
    "\<forall>T \<in> set periods. 25 / 100 \<le> T \<and> T \<le> 548"
    unfolding periods_def by (rule np_logspace_grid; simp)+
  have pne: "periods \<noteq> []" using len by auto
  have img: "period_days ` set spec = set periods"
    using pd by (metis set_map)
  have hd_spec: "period_days (hd spec) = 25 / 100"
    using grid(1) pd ne by (metis hd_map)
  have last_spec: "period_days (last spec) = 548"
    using grid(2) pd ne by (metis last_map)
  have mn: "Min (set periods) = 25 / 100"
  proof (rule Min_eqI)
    show "finite (set periods)" by simp
    show "25 / 100 \<le> y" if "y \<in> set periods" for y using grid(3) that by blast
    show "25 / 100 \<in> set periods" using grid(1) pne hd_in_set by metis
  qed
  have mx: "Max (set periods) = 548"
  proof (rule Max_eqI)
    show "finite (set periods)" by simp
    show "y \<le> 548" if "y \<in> set periods" for y using grid(3) that by blast
    show "548 \<in> set periods" using grid(2) pne last_in_set by metis
  qed
  have pw: "\<forall>e \<in> set spec. 0 \<le> entry_power e"
    unfolding spec_def by (auto simp: entry_at_fields mfpa_power_nonneg)
  have "length spec = 300" using len by (simp add: spec_def)
  with res sp img hd_spec last_spec mn mx pw show ?thesis by auto
qed


theorem mfpa_scan_default_grid_witness:
  "\<exists>res. mfpa_scan lower_bound_generator [0, 10] MFPA_N_PERIODS MFPA_MIN_DAYS MFPA_MAX_DAYS
            N_BOOTSTRAP RNG_SEED = Inr res
     \<and> length (spectrum res) = 300
     \<and> period_days (hd (spectrum res)) = 25 / 100
     \<and> 0 \<le> entry_power (hd (spectrum res))"
proof -
  from mfpa_scan_default_grid [of lower_bound_generator "[0, 10]" N_BOOTSTRAP RNG_SEED]
  obtain res where res: "mfpa_scan lower_bound_generator [0, 10] MFPA_N_PERIODS MFPA_MIN_DAYS
        MFPA_MAX_DAYS N_BOOTSTRAP RNG_SEED = Inr res"
    and len: "length (spectrum res) = 300"
    and first: "period_days (hd (spectrum res)) = 25 / 100"
    and pw: "\<forall>e \<in> set (spectrum res). 0 \<le> entry_power e"
    by blast
  from len have "spectrum res \<noteq> []" by auto
  then have "hd (spectrum res) \<in> set (spectrum res)" by simp
  with pw have "0 \<le> entry_power (hd (spectrum res))" by blast
  with res len first show ?thesis by blast
qed


section \<open>Reproducible bootstrap\<close>






section \<open>Cluster-robust against standard p-value\<close>








section \<open>The range of the p-values\<close>

lemma compute_rayleigh_nonempty:
  assumes "phases \<noteq> []"
  shows "\<exists>R p mp. compute_rayleigh phases = (Some R, Some p, Some mp)
           \<and> 0 \<le> R \<and> 0 < p \<and> p \<le> 1"
proof -
  define mc where "mc = sum_list (map cos (map (\<lambda>p. 2 * pi * p) phases)) / real (length phases)"
  define ms where "ms = sum_list (map sin (map (\<lambda>p. 2 * pi * p) phases)) / real (length phases)"
  have "compute_rayleigh phases =
      (Some (sqrt (mc\<^sup>2 + ms\<^sup>2)),
       Some (exp (- real (length phases) * (sqrt (mc\<^sup>2 + ms\<^sup>2))\<^sup>2)),
       Some (fmod (arctan2 ms mc / (2 * pi)) 1))"
    using assms by (simp add: compute_rayleigh_def np_mean_def Let_def mc_def ms_def)
  moreover have "0 \<le> real (length phases) * (sqrt (mc\<^sup>2 + ms\<^sup>2))\<^sup>2"
    by simp
  then have "exp (- real (length phases) * (sqrt (mc\<^sup>2 + ms\<^sup>2))\<^sup>2) \<le> 1"
    by simp
  ultimately show ?thesis by simp
qed

text \<open>
  Claim C10 says that every p-value of the Schuster engine and of the Rayleigh test lies
  in \<open>(0, 1]\<close>, for every input array. For the Schuster engine this holds for every
  array and every non-zero period (\<open>schuster_p_values_in_range\<close>), and for
  \<open>compute_rayleigh\<close> it holds for every non-empty array
  (\<open>compute_rayleigh_nonempty\<close>). On the empty array \<open>compute_rayleigh\<close> has no
  guard: the two means are NaN, and so are \<open>R\<close>, the p-value and the mean phase, where
  \<open>schuster_single_period\<close> returns the p-value 1.
\<close>

theorem compute_rayleigh_empty_is_nan:
  "compute_rayleigh [] = (None, None, None)
   \<and> p_standard (schuster_single_period [] period dt) = Some 1
   \<and> p_cluster_robust (schuster_single_period [] period dt) = Some 1"
  by (simp add: compute_rayleigh_def np_mean_def schuster_single_period_def)

end
